theory Spec2Isabelle
  imports Complex_Main
begin

section \<open>Numeric values\<close>

text \<open>
  The solver computes on numpy arrays of IEEE doubles. A value is modelled as a finite
  real number or one of the three special values of IEEE arithmetic. The special values
  follow the IEEE rules (\<open>0/0\<close>, \<open>0 * inf\<close> and \<open>inf - inf\<close> are NaN, \<open>x/0\<close> is an
  infinity, NaN is absorbing). Arithmetic on finite values is exact: rounding, overflow
  and underflow of finite results and the sign of zero are not modelled (the one zero
  \<open>Fin 0\<close> is read as \<open>+0\<close>). In particular \<open>fexp\<close> of a finite value is finite and
  positive, where \<open>np.exp\<close> gives \<open>0.0\<close> below about \<open>-745\<close> and \<open>inf\<close> above about
  \<open>709\<close>, and a product of finite values is finite. What is proved of finite values is
  proved of this exact arithmetic.
\<close>

datatype fl = Fin real | PInf | NInf | NaN

fun is_finite :: "fl \<Rightarrow> bool" where
  "is_finite (Fin a) = True"
| "is_finite PInf = False"
| "is_finite NInf = False"
| "is_finite NaN = False"

fun fneg :: "fl \<Rightarrow> fl" where
  "fneg (Fin a) = Fin (- a)"
| "fneg PInf = NInf"
| "fneg NInf = PInf"
| "fneg NaN = NaN"

fun fadd :: "fl \<Rightarrow> fl \<Rightarrow> fl" where
  "fadd (Fin a) (Fin b) = Fin (a + b)"
| "fadd (Fin a) PInf = PInf"
| "fadd (Fin a) NInf = NInf"
| "fadd (Fin a) NaN = NaN"
| "fadd PInf (Fin b) = PInf"
| "fadd PInf PInf = PInf"
| "fadd PInf NInf = NaN"
| "fadd PInf NaN = NaN"
| "fadd NInf (Fin b) = NInf"
| "fadd NInf PInf = NaN"
| "fadd NInf NInf = NInf"
| "fadd NInf NaN = NaN"
| "fadd NaN y = NaN"

definition fsub :: "fl \<Rightarrow> fl \<Rightarrow> fl" where
  "fsub x y = fadd x (fneg y)"

fun fmul :: "fl \<Rightarrow> fl \<Rightarrow> fl" where
  "fmul (Fin a) (Fin b) = Fin (a * b)"
| "fmul (Fin a) PInf = (if a = 0 then NaN else if 0 < a then PInf else NInf)"
| "fmul (Fin a) NInf = (if a = 0 then NaN else if 0 < a then NInf else PInf)"
| "fmul (Fin a) NaN = NaN"
| "fmul PInf (Fin b) = (if b = 0 then NaN else if 0 < b then PInf else NInf)"
| "fmul PInf PInf = PInf"
| "fmul PInf NInf = NInf"
| "fmul PInf NaN = NaN"
| "fmul NInf (Fin b) = (if b = 0 then NaN else if 0 < b then NInf else PInf)"
| "fmul NInf PInf = NInf"
| "fmul NInf NInf = PInf"
| "fmul NInf NaN = NaN"
| "fmul NaN y = NaN"

fun fdiv :: "fl \<Rightarrow> fl \<Rightarrow> fl" where
  "fdiv (Fin a) (Fin b) =
     (if b = 0 then (if a = 0 then NaN else if 0 < a then PInf else NInf)
      else Fin (a / b))"
| "fdiv (Fin a) PInf = Fin 0"
| "fdiv (Fin a) NInf = Fin 0"
| "fdiv (Fin a) NaN = NaN"
| "fdiv PInf (Fin b) = (if 0 \<le> b then PInf else NInf)"
| "fdiv PInf PInf = NaN"
| "fdiv PInf NInf = NaN"
| "fdiv PInf NaN = NaN"
| "fdiv NInf (Fin b) = (if 0 \<le> b then NInf else PInf)"
| "fdiv NInf PInf = NaN"
| "fdiv NInf NInf = NaN"
| "fdiv NInf NaN = NaN"
| "fdiv NaN y = NaN"

text \<open>\<open>x**2\<close> on a float array is the elementwise square.\<close>

definition fsq :: "fl \<Rightarrow> fl" where
  "fsq x = fmul x x"

fun fexp :: "fl \<Rightarrow> fl" where
  "fexp (Fin a) = Fin (exp a)"
| "fexp PInf = PInf"
| "fexp NInf = Fin 0"
| "fexp NaN = NaN"

section \<open>The solver state\<close>

text \<open>
  The fields of \<open>LatticeBoltzmannSolver\<close>. The matrix \<open>f\<close> is the list of its three rows
  (one per velocity direction), each a list of \<open>nx\<close> values. The record is polymorphic
  in the type of the values: streaming only moves values, so what is proved of it holds
  for every value type.
\<close>

record 'v solver =
  nx :: nat
  nt :: int
  omega :: 'v
  dx :: 'v
  dt :: 'v
  f :: "'v list list"
  rho :: "'v list"
  u :: "'v list"
  epsilon :: "'v list"
  c :: "'v list"
  w :: "'v list"

text \<open>
  \<open>__init__\<close>: \<open>f\<close> and \<open>epsilon\<close> zero-filled, \<open>rho\<close> all ones, \<open>u\<close> all zeros, and the
  D1Q3 velocities and weights.
\<close>

definition init :: "nat \<Rightarrow> int \<Rightarrow> fl \<Rightarrow> fl \<Rightarrow> fl \<Rightarrow> fl solver" where
  "init n t om x_step t_step =
     \<lparr> nx = n, nt = t, omega = om, dx = x_step, dt = t_step,
       f = replicate 3 (replicate n (Fin 0)),
       rho = replicate n (Fin 1),
       u = replicate n (Fin 0),
       epsilon = replicate n (Fin 0),
       c = [Fin 0, Fin 1, Fin (- 1)],
       w = [Fin (1 / 3), Fin (1 / 6), Fin (1 / 6)] \<rparr>"

text \<open>The constructor with the default arguments \<open>dx=1.0, dt=1.0\<close>.\<close>

definition new_solver :: "nat \<Rightarrow> int \<Rightarrow> fl \<Rightarrow> fl solver" where
  "new_solver n t om = init n t om (Fin 1) (Fin 1)"

text \<open>
  The arrays \<open>f\<close>, \<open>rho\<close> and \<open>u\<close> are created by the constructor and written only by the
  solver's own methods, which keep their shapes \<open>(3, nx)\<close>, \<open>(nx)\<close> and \<open>(nx)\<close>. The lists
  of the model are read under this shape. \<open>epsilon\<close> is what the caller passed to
  \<open>set_epsilon\<close>; the data model asks for a vector of length \<open>nx\<close>.
\<close>

definition shape_ok :: "'v solver \<Rightarrow> bool" where
  "shape_ok s \<longleftrightarrow>
     length (f s) = 3 \<and> (\<forall>r \<in> set (f s). length r = nx s) \<and>
     length (rho s) = nx s \<and> length (u s) = nx s \<and> length (epsilon s) = nx s"

definition d1q3 :: "fl solver \<Rightarrow> bool" where
  "d1q3 s \<longleftrightarrow> c s = [Fin 0, Fin 1, Fin (- 1)] \<and> w s = [Fin (1 / 3), Fin (1 / 6), Fin (1 / 6)]"


section \<open>Streaming\<close>

text \<open>
  \<^verbatim>\<open>for i in range(1, self.nx): self.f[1, i] = self.f[1, i-1]\<close> and
  \<^verbatim>\<open>for i in range(self.nx-2, -1, -1): self.f[2, i] = self.f[2, i+1]\<close>.
  Both loops write into the matrix they read. \<open>range(nx-2, -1, -1)\<close> runs over
  \<open>nx-2, ..., 0\<close> and is empty for \<open>nx \<le> 1\<close>.
\<close>

definition stream_right_step :: "'v list list \<Rightarrow> nat \<Rightarrow> 'v list list" where
  "stream_right_step m i = m[1 := (m ! 1)[i := m ! 1 ! (i - 1)]]"

definition stream_left_step :: "'v list list \<Rightarrow> nat \<Rightarrow> 'v list list" where
  "stream_left_step m i = m[2 := (m ! 2)[i := m ! 2 ! (i + 1)]]"

definition streaming :: "'v solver \<Rightarrow> 'v solver" where
  "streaming s =
     (let m1 = foldl stream_right_step (f s) [1..<nx s];
          m2 = foldl stream_left_step m1 (rev [0..<nx s - 1])
      in s\<lparr>f := m2\<rparr>)"

section \<open>Equilibrium distribution\<close>

text \<open>
  The only failure of the solver comes from numpy's broadcasting: an \<open>epsilon\<close> whose
  length is neither \<open>nx\<close> nor 1 makes the product with \<open>np.exp(self.epsilon)\<close> (or the
  assignment of the product to the row \<open>f_eq[i, :]\<close>) raise \<open>ValueError\<close>; an \<open>epsilon\<close>
  of length 1 is broadcast over the row.
\<close>

datatype error = ValueError

definition times_epsilon :: "fl list \<Rightarrow> fl list \<Rightarrow> error + fl list" where
  "times_epsilon body e =
     (if length e = length body then Inr (map2 fmul body e)
      else if length e = 1 then Inr (map (\<lambda>x. fmul x (hd e)) body)
      else Inl ValueError)"

text \<open>\<^verbatim>\<open>u_eq[i, :] = self.u + self.c[i]\<close>\<close>

definition u_eq_row :: "fl solver \<Rightarrow> nat \<Rightarrow> fl list" where
  "u_eq_row s i = map (\<lambda>x. fadd x (c s ! i)) (u s)"

text \<open>
  \<^verbatim>\<open>self.w[i] * self.rho * (1 + 3*u_eq[i,:] + 9/2*u_eq[i,:]**2 - 3/2*self.u**2) * np.exp(self.epsilon)\<close>,
  evaluated in Python's order: products and sums associate to the left.
\<close>

definition f_eq_row :: "fl solver \<Rightarrow> nat \<Rightarrow> error + fl list" where
  "f_eq_row s i =
     (let ue = u_eq_row s i;
          t1 = map (fadd (Fin 1)) (map (fmul (Fin 3)) ue);
          t2 = map (fmul (Fin (9 / 2))) (map fsq ue);
          t3 = map (fmul (Fin (3 / 2))) (map fsq (u s));
          poly = map2 fsub (map2 fadd t1 t2) t3;
          body = map2 fmul (map (fmul (w s ! i)) (rho s)) poly
      in times_epsilon body (map fexp (epsilon s)))"

fun equilibrium_loop :: "fl solver \<Rightarrow> nat list \<Rightarrow> fl list list \<Rightarrow> error + fl list list" where
  "equilibrium_loop s [] f_eq = Inr f_eq"
| "equilibrium_loop s (i # ixs) f_eq =
     (case f_eq_row s i of
        Inl e \<Rightarrow> Inl e
      | Inr r \<Rightarrow> equilibrium_loop s ixs (f_eq[i := r]))"

definition equilibrium_distribution :: "fl solver \<Rightarrow> error + fl list list" where
  "equilibrium_distribution s =
     equilibrium_loop s [0, 1, 2] (replicate 3 (replicate (nx s) (Fin 0)))"

section \<open>Collision\<close>

text \<open>\<^verbatim>\<open>self.f[i, :] = (1 - self.omega) * self.f[i, :] + self.omega * f_eq[i, :]\<close>\<close>

definition relax_row :: "fl \<Rightarrow> fl list \<Rightarrow> fl list \<Rightarrow> fl list" where
  "relax_row om fr er = map2 fadd (map (fmul (fsub (Fin 1) om)) fr) (map (fmul om) er)"

definition collision_step :: "fl \<Rightarrow> fl list list \<Rightarrow> fl list list \<Rightarrow> nat \<Rightarrow> fl list list" where
  "collision_step om f_eq m i = m[i := relax_row om (m ! i) (f_eq ! i)]"

definition collision :: "fl solver \<Rightarrow> error + fl solver" where
  "collision s =
     (case equilibrium_distribution s of
        Inl e \<Rightarrow> Inl e
      | Inr f_eq \<Rightarrow> Inr (s\<lparr>f := foldl (collision_step (omega s) f_eq) (f s) [0, 1, 2]\<rparr>))"

section \<open>Macroscopic update\<close>

text \<open>
  \<^verbatim>\<open>self.rho = np.sum(self.f, axis=0)\<close>, then
  \<^verbatim>\<open>self.u = (self.f[1, :] - self.f[2, :]) / self.rho\<close> with the new \<open>rho\<close>. Under numpy's
  default error state a division by zero gives a warning and an infinity or NaN, not an
  exception.
\<close>

definition np_sum_axis0 :: "fl list list \<Rightarrow> fl list" where
  "np_sum_axis0 m = (case m of [] \<Rightarrow> [] | r # rs \<Rightarrow> foldl (\<lambda>acc row. map2 fadd acc row) r rs)"

definition update_density_velocity :: "fl solver \<Rightarrow> fl solver" where
  "update_density_velocity s =
     (let r = np_sum_axis0 (f s)
      in s\<lparr>rho := r, u := map2 fdiv (map2 fsub (f s ! 1) (f s ! 2)) r\<rparr>)"

section \<open>Evolution\<close>

text \<open>
  The body of the loop of \<open>evolve\<close>, and the loop itself as a recursion on the number of
  iterations left. \<open>range(self.nt)\<close> is empty for a negative \<open>nt\<close>. An exception raised in
  an iteration ends the loop.
\<close>

definition evolve_body :: "fl solver \<Rightarrow> error + fl solver" where
  "evolve_body s =
     (case collision s of
        Inl e \<Rightarrow> Inl e
      | Inr s1 \<Rightarrow> Inr (update_density_velocity (streaming s1)))"

fun evolve_loop :: "nat \<Rightarrow> fl solver \<Rightarrow> error + fl solver" where
  "evolve_loop 0 s = Inr s"
| "evolve_loop (Suc n) s =
     (case evolve_body s of
        Inl e \<Rightarrow> Inl e
      | Inr s' \<Rightarrow> evolve_loop n s')"

definition evolve :: "fl solver \<Rightarrow> error + fl solver" where
  "evolve s = evolve_loop (nat (nt s)) s"

section \<open>Auxiliary notions for the proofs\<close>

text \<open>The two streaming loops act on one row each; these are their bodies on that row.\<close>

definition shift_right_row :: "'v list \<Rightarrow> nat \<Rightarrow> 'v list" where
  "shift_right_row r i = r[i := r ! (i - 1)]"

definition shift_left_row :: "'v list \<Rightarrow> nat \<Rightarrow> 'v list" where
  "shift_left_row r i = r[i := r ! (i + 1)]"

text \<open>A solver with three sites whose rows of \<open>f\<close> are pairwise different.\<close>

definition stream_example :: "fl solver" where
  "stream_example =
     (new_solver 3 1 (Fin 1))
       \<lparr>f := [[Fin 7, Fin 8, Fin 9], [Fin 1, Fin 2, Fin 3], [Fin 4, Fin 5, Fin 6]]\<rparr>"

text \<open>
  The value of the equilibrium distribution at one site, for the direction with weight
  \<open>wd\<close> and velocity \<open>cd\<close>, and the rows of the matrix that \<open>equilibrium_distribution\<close>
  returns on a state of the right shape.
\<close>

definition f_eq_at :: "fl \<Rightarrow> fl \<Rightarrow> fl \<Rightarrow> fl \<Rightarrow> fl \<Rightarrow> fl" where
  "f_eq_at wd cd r v e =
     fmul (fmul (fmul wd r)
             (fsub (fadd (fadd (Fin 1) (fmul (Fin 3) (fadd v cd)))
                         (fmul (Fin (9 / 2)) (fsq (fadd v cd))))
                   (fmul (Fin (3 / 2)) (fsq v))))
          (fexp e)"

definition f_eq_vals :: "fl solver \<Rightarrow> nat \<Rightarrow> fl list" where
  "f_eq_vals s d =
     map (\<lambda>i. f_eq_at (w s ! d) (c s ! d) (rho s ! i) (u s ! i) (epsilon s ! i)) [0..<nx s]"

text \<open>
  A solver with relaxation rate 1 and zero binding energy whose fields are constant
  along the lattice.
\<close>

definition uniform_state :: "nat \<Rightarrow> int \<Rightarrow> real \<Rightarrow> real \<Rightarrow> real \<Rightarrow> real \<Rightarrow> real \<Rightarrow> fl solver" where
  "uniform_state n t a0 a1 a2 r v =
     (new_solver n t (Fin 1))
       \<lparr>f := [replicate n (Fin a0), replicate n (Fin a1), replicate n (Fin a2)],
        rho := replicate n (Fin r), u := replicate n (Fin v)\<rparr>"

text \<open>
  The relation between the macroscopic fields and the distribution functions that the data
  model states: \<open>rho[i] = f[0,i] + f[1,i] + f[2,i]\<close> and
  \<open>u[i] = (f[1,i] - f[2,i]) / rho[i]\<close> at every site.
\<close>

definition macroscopic_consistent :: "fl solver \<Rightarrow> bool" where
  "macroscopic_consistent s \<longleftrightarrow>
     (\<forall>i \<in> {..<nx s}.
        rho s ! i = fadd (fadd (f s ! 0 ! i) (f s ! 1 ! i)) (f s ! 2 ! i) \<and>
        u s ! i = fdiv (fsub (f s ! 1 ! i) (f s ! 2 ! i)) (rho s ! i))"

text \<open>
  The state that \<open>evolve\<close> reaches from the constructor's state with \<open>nx=1, nt=1, omega=0\<close>:
  \<open>f\<close> is still zero, so the density is 0 and the velocity is \<open>0/0\<close>.
\<close>

definition nan_state :: "fl solver" where
  "nan_state = (new_solver 1 1 (Fin 0))\<lparr>rho := [Fin 0], u := [NaN]\<rparr>"



section \<open>Streaming: what the two loops compute\<close>

lemma foldl_stream_right_step:
  "1 < length m \<Longrightarrow> foldl stream_right_step m ixs = m[1 := foldl shift_right_row (m ! 1) ixs]"
  by (induction ixs arbitrary: m) (simp_all add: stream_right_step_def shift_right_row_def)

lemma foldl_stream_left_step:
  "2 < length m \<Longrightarrow> foldl stream_left_step m ixs = m[2 := foldl shift_left_row (m ! 2) ixs]"
  by (induction ixs arbitrary: m) (simp_all add: stream_left_step_def shift_left_row_def)

lemma length_foldl_shift_right [simp]: "length (foldl shift_right_row r ixs) = length r"
  by (induction ixs arbitrary: r) (simp_all add: shift_right_row_def)

lemma length_foldl_shift_left [simp]: "length (foldl shift_left_row r ixs) = length r"
  by (induction ixs arbitrary: r) (simp_all add: shift_left_row_def)

lemma nth_shift_right_row:
  "shift_right_row r i ! j = (if j = i \<and> i < length r then r ! (i - 1) else r ! j)"
  by (cases "i < length r") (auto simp: shift_right_row_def nth_list_update list_update_beyond)

lemma nth_shift_left_row:
  "shift_left_row r i ! j = (if j = i \<and> i < length r then r ! (i + 1) else r ! j)"
  by (cases "i < length r") (auto simp: shift_left_row_def nth_list_update list_update_beyond)

text \<open>
  The ascending loop reads at \<open>i - 1\<close> the value it wrote one iteration earlier, so the
  value at index 0 runs through the whole row.
\<close>

lemma foldl_shift_right_nth:
  "n \<le> length r \<Longrightarrow> j < length r \<Longrightarrow>
   foldl shift_right_row r [Suc 0..<n] ! j = (if Suc 0 \<le> j \<and> j < n then r ! 0 else r ! j)"
proof (induction n arbitrary: j)
  case 0
  then show ?case by simp
next
  case (Suc n)
  show ?case
  proof (cases "n = 0")
    case True
    then show ?thesis by simp
  next
    case False
    let ?r' = "foldl shift_right_row r [Suc 0..<n]"
    have split: "foldl shift_right_row r [Suc 0..<Suc n] = shift_right_row ?r' n"
      using False by simp
    have prev: "?r' ! (n - Suc 0) = r ! 0"
      using Suc.IH [of "n - Suc 0"] Suc.prems False by (cases "n = Suc 0") auto
    have here: "?r' ! j = (if Suc 0 \<le> j \<and> j < n then r ! 0 else r ! j)"
      using Suc.IH [of j] Suc.prems by simp
    show ?thesis
      unfolding split
      using prev here Suc.prems False by (auto simp: nth_shift_right_row)
  qed
qed

text \<open>The descending loop does the same from the other end.\<close>

lemma foldl_shift_left_nth:
  "k < length r \<Longrightarrow> j < length r \<Longrightarrow>
   foldl shift_left_row r (rev [0..<k]) ! j = (if j < k then r ! k else r ! j)"
proof (induction k arbitrary: r)
  case 0
  then show ?case by simp
next
  case (Suc k)
  have "foldl shift_left_row r (rev [0..<Suc k]) ! j =
        foldl shift_left_row (shift_left_row r k) (rev [0..<k]) ! j"
    by simp
  also have "\<dots> = (if j < k then shift_left_row r k ! k else shift_left_row r k ! j)"
    using Suc.prems by (intro Suc.IH) (simp_all add: shift_left_row_def)
  also have "\<dots> = (if j < Suc k then r ! Suc k else r ! j)"
    using Suc.prems by (auto simp: nth_shift_left_row)
  finally show ?case .
qed

lemma f_streaming:
  assumes "length (f s) = 3"
  shows "f (streaming s) =
         (f s)[1 := foldl shift_right_row (f s ! 1) [1..<nx s],
               2 := foldl shift_left_row (f s ! 2) (rev [0..<nx s - 1])]"
  using assms
  by (simp add: streaming_def Let_def foldl_stream_right_step foldl_stream_left_step)

lemma streaming_other_fields:
  "nx (streaming s) = nx s" "nt (streaming s) = nt s" "omega (streaming s) = omega s"
  "rho (streaming s) = rho s" "u (streaming s) = u s" "epsilon (streaming s) = epsilon s"
  "c (streaming s) = c s" "w (streaming s) = w s" "dx (streaming s) = dx s"
  "dt (streaming s) = dt s"
  by (simp_all add: streaming_def Let_def)

lemma shape_ok_streaming: "shape_ok s \<Longrightarrow> shape_ok (streaming s)"
  unfolding shape_ok_def
  by (auto simp: f_streaming streaming_other_fields
      dest!: set_update_subset_insert [THEN subsetD])

lemma shape_ok_stream_example: "shape_ok stream_example"
  by (simp add: shape_ok_def stream_example_def new_solver_def init_def)

lemma f_streaming_stream_example:
  "f (streaming stream_example) =
   [[Fin 7, Fin 8, Fin 9], [Fin 1, Fin 1, Fin 1], [Fin 6, Fin 6, Fin 6]]"
  by (simp add: streaming_def Let_def stream_example_def new_solver_def init_def
      stream_right_step_def stream_left_step_def upt_rec numeral_2_eq_2)

text \<open>
  C3. After one call to \<open>streaming\<close>, row 1 holds the old \<open>f[1,0]\<close> at every index from
  1 to \<open>nx-1\<close>, and row 2 holds the old \<open>f[2,nx-1]\<close> at every index from 0 to \<open>nx-2\<close>:
  the in-place loops carry one edge value across the row.
\<close>

theorem streaming_propagates_edge_value:
  assumes "shape_ok s"
  shows "(\<forall>i. 1 \<le> i \<and> i < nx s \<longrightarrow> f (streaming s) ! 1 ! i = f s ! 1 ! 0) \<and>
         (\<forall>i. i + 2 \<le> nx s \<longrightarrow> f (streaming s) ! 2 ! i = f s ! 2 ! (nx s - 1))"
proof -
  from assms have len: "length (f s) = 3" "length (f s ! 1) = nx s" "length (f s ! 2) = nx s"
    by (simp_all add: shape_ok_def)
  have r: "f (streaming s) ! 1 ! i = f s ! 1 ! 0" if "1 \<le> i" "i < nx s" for i
    using that len by (simp add: f_streaming foldl_shift_right_nth)
  have l: "f (streaming s) ! 2 ! i = f s ! 2 ! (nx s - 1)" if "i + 2 \<le> nx s" for i
    using that len by (auto simp: f_streaming foldl_shift_left_nth)
  from r l show ?thesis by blast
qed

theorem streaming_propagates_edge_value_witness:
  "shape_ok stream_example \<and>
   f (streaming stream_example) ! 1 ! 2 = Fin 1 \<and>
   f (streaming stream_example) ! 2 ! 0 = Fin 6"
proof -
  have n: "nx stream_example = 3"
    and r1: "f stream_example ! 1 ! 0 = Fin 1"
    and r2: "f stream_example ! 2 ! (nx stream_example - 1) = Fin 6"
    by (simp_all add: stream_example_def new_solver_def init_def)
  from streaming_propagates_edge_value [OF shape_ok_stream_example]
  have "f (streaming stream_example) ! 1 ! 2 = f stream_example ! 1 ! 0"
    and "f (streaming stream_example) ! 2 ! 0 = f stream_example ! 2 ! (nx stream_example - 1)"
    using n by simp_all
  with r1 r2 shape_ok_stream_example show ?thesis by simp
qed

text \<open>
  C1. The claim asks for a one-site shift: the new \<open>f[1,i]\<close> is the old \<open>f[1,i-1]\<close> and
  the new \<open>f[2,i]\<close> is the old \<open>f[2,i+1]\<close>. On the rows \<open>[1,2,3]\<close> and \<open>[4,5,6]\<close> the code
  gives \<open>[1,1,1]\<close> and \<open>[6,6,6]\<close>: site 2 of row 1 receives 1 where the old \<open>f[1,1]\<close> was 2,
  and site 0 of row 2 receives 6 where the old \<open>f[2,1]\<close> was 5.
\<close>

theorem streaming_is_not_a_shift:
  "f (streaming stream_example) ! 1 ! 2 = Fin 1 \<and> f stream_example ! 1 ! 1 = Fin 2 \<and>
   f (streaming stream_example) ! 2 ! 0 = Fin 6 \<and> f stream_example ! 2 ! 1 = Fin 5"
  by (simp add: f_streaming_stream_example) (simp add: stream_example_def)

text \<open>
  C4, as stated, fails: the rightmost value of row 1 and the leftmost value of row 2 are
  overwritten.
\<close>

theorem streaming_overwrites_far_edges:
  "f (streaming stream_example) ! 1 ! (nx stream_example - 1)
     \<noteq> f stream_example ! 1 ! (nx stream_example - 1) \<and>
   f (streaming stream_example) ! 2 ! 0 \<noteq> f stream_example ! 2 ! 0"
proof -
  have "nx stream_example - 1 = 2"
    by (simp add: stream_example_def new_solver_def init_def)
  then show ?thesis
    by (simp add: f_streaming_stream_example) (simp add: stream_example_def)
qed

text \<open>
  C4, amended. A call to \<open>streaming\<close> leaves unchanged the leftmost value of row 1
  (\<open>f[1,0]\<close>, where the ascending loop starts reading), the rightmost value of row 2
  (\<open>f[2,nx-1]\<close>), the whole rest row \<open>f[0,:]\<close>, and every field other than \<open>f\<close>.
\<close>

theorem streaming_frame:
  assumes "shape_ok s"
  shows "f (streaming s) ! 0 = f s ! 0 \<and>
         f (streaming s) ! 1 ! 0 = f s ! 1 ! 0 \<and>
         f (streaming s) ! 2 ! (nx s - 1) = f s ! 2 ! (nx s - 1) \<and>
         streaming s = s\<lparr>f := f (streaming s)\<rparr>"
proof -
  from assms have len: "length (f s) = 3" "length (f s ! 1) = nx s" "length (f s ! 2) = nx s"
    by (simp_all add: shape_ok_def)
  have row0: "f (streaming s) ! 0 = f s ! 0"
    using len by (simp add: f_streaming)
  have left: "f (streaming s) ! 1 ! 0 = f s ! 1 ! 0"
  proof (cases "nx s = 0")
    case True
    with len show ?thesis by (simp add: f_streaming)
  next
    case False
    with len show ?thesis by (simp add: f_streaming foldl_shift_right_nth)
  qed
  have right: "f (streaming s) ! 2 ! (nx s - 1) = f s ! 2 ! (nx s - 1)"
  proof (cases "nx s = 0")
    case True
    with len show ?thesis by (simp add: f_streaming)
  next
    case False
    with len show ?thesis by (simp add: f_streaming foldl_shift_left_nth)
  qed
  have rest: "streaming s = s\<lparr>f := f (streaming s)\<rparr>"
    by (simp add: streaming_def Let_def)
  from row0 left right rest show ?thesis by blast
qed

theorem streaming_frame_witness:
  "shape_ok stream_example \<and>
   f (streaming stream_example) ! 0 = [Fin 7, Fin 8, Fin 9] \<and>
   f (streaming stream_example) ! 1 ! 0 = Fin 1 \<and>
   f (streaming stream_example) ! 2 ! 2 = Fin 6"
proof -
  have n: "nx stream_example - 1 = 2"
    and vals: "f stream_example ! 0 = [Fin 7, Fin 8, Fin 9]" "f stream_example ! 1 ! 0 = Fin 1"
      "f stream_example ! 2 ! 2 = Fin 6"
    by (simp_all add: stream_example_def new_solver_def init_def)
  from streaming_frame [OF shape_ok_stream_example] n vals shape_ok_stream_example
  show ?thesis by simp
qed

section \<open>Equilibrium, collision and update on states of the right shape\<close>

lemma list3: "length m = 3 \<Longrightarrow> m = [m ! 0, m ! 1, m ! 2]"
  by (cases m; cases "tl m"; cases "tl (tl m)") auto

lemma f_eq_row_shape_ok:
  assumes "shape_ok s"
  shows "f_eq_row s d = Inr (f_eq_vals s d)"
proof -
  from assms have len: "length (rho s) = nx s" "length (u s) = nx s" "length (epsilon s) = nx s"
    by (simp_all add: shape_ok_def)
  then show ?thesis
    by (auto simp: f_eq_row_def Let_def times_epsilon_def f_eq_vals_def f_eq_at_def u_eq_row_def
        intro!: nth_equalityI)
qed

lemma equilibrium_distribution_shape_ok:
  assumes "shape_ok s"
  shows "equilibrium_distribution s = Inr [f_eq_vals s 0, f_eq_vals s 1, f_eq_vals s 2]"
  by (simp add: equilibrium_distribution_def f_eq_row_shape_ok [OF assms] numeral_3_eq_3)

lemma foldl_collision_step:
  assumes "length m = 3"
  shows "foldl (collision_step om fe) m [0, 1, 2] =
         [relax_row om (m ! 0) (fe ! 0), relax_row om (m ! 1) (fe ! 1), relax_row om (m ! 2) (fe ! 2)]"
proof -
  obtain a b d where m: "m = [a, b, d]"
    using list3 [OF assms] by blast
  show ?thesis by (simp add: m collision_step_def)
qed

lemma collision_shape_ok:
  assumes "shape_ok s"
  shows "collision s =
    Inr (s\<lparr>f := [relax_row (omega s) (f s ! 0) (f_eq_vals s 0),
                 relax_row (omega s) (f s ! 1) (f_eq_vals s 1),
                 relax_row (omega s) (f s ! 2) (f_eq_vals s 2)]\<rparr>)"
proof -
  from assms have len: "length (f s) = 3" by (simp add: shape_ok_def)
  show ?thesis
    unfolding collision_def equilibrium_distribution_shape_ok [OF assms] sum.case
      foldl_collision_step [OF len]
    by simp
qed

lemma length_f_eq_vals [simp]: "length (f_eq_vals s d) = nx s"
  by (simp add: f_eq_vals_def)

lemma nth_f_eq_vals:
  "i < nx s \<Longrightarrow> f_eq_vals s d ! i = f_eq_at (w s ! d) (c s ! d) (rho s ! i) (u s ! i) (epsilon s ! i)"
  by (simp add: f_eq_vals_def)

lemma length_relax_row [simp]: "length (relax_row om a b) = min (length a) (length b)"
  by (simp add: relax_row_def)

lemma nth_relax_row:
  "i < length a \<Longrightarrow> i < length b \<Longrightarrow>
   relax_row om a b ! i = fadd (fmul (fsub (Fin 1) om) (a ! i)) (fmul om (b ! i))"
  by (simp add: relax_row_def)

lemma np_sum_axis0_3:
  "np_sum_axis0 [a, b, d] = map2 fadd (map2 fadd a b) d"
  by (simp add: np_sum_axis0_def)

section \<open>The end-to-end scenario\<close>

text \<open>
  On a state that is constant along the lattice, one iteration of \<open>evolve\<close> with
  \<open>omega = 1\<close> and \<open>epsilon = 0\<close> gives a state that is again constant: collision
  replaces \<open>f\<close> by the equilibrium values, streaming leaves constant rows as they are,
  and the update sums the three equilibrium values.
\<close>

lemma foldl_shift_right_replicate:
  "foldl shift_right_row (replicate n x) [Suc 0..<n] = replicate n x"
  by (rule nth_equalityI) (simp_all add: foldl_shift_right_nth)

lemma foldl_shift_left_replicate:
  "foldl shift_left_row (replicate n x) (rev [0..<n - Suc 0]) = replicate n x"
  by (rule nth_equalityI) (simp_all add: foldl_shift_left_nth)

lemma shape_ok_uniform_state: "shape_ok (uniform_state n t a0 a1 a2 r v)"
  by (simp add: shape_ok_def uniform_state_def new_solver_def init_def)

lemma f_eq_vals_uniform_state:
  "f_eq_vals (uniform_state n t a0 a1 a2 r v) d =
   replicate n (f_eq_at ([Fin (1 / 3), Fin (1 / 6), Fin (1 / 6)] ! d) ([Fin 0, Fin 1, Fin (- 1)] ! d)
     (Fin r) (Fin v) (Fin 0))"
  by (rule nth_equalityI)
     (simp_all add: f_eq_vals_def uniform_state_def new_solver_def init_def)

lemma new_solver_uniform: "new_solver n t (Fin 1) = uniform_state n t 0 0 0 1 0"
  by (simp add: uniform_state_def new_solver_def init_def numeral_3_eq_3)

lemma evolve_body_uniform_state:
  assumes "b0 = r * (1 + 3 * v + 3 * v\<^sup>2) / 3"
    and "b1 = r * (17 / 2 + 12 * v + 3 * v\<^sup>2) / 6"
    and "b2 = r * (5 / 2 - 6 * v + 3 * v\<^sup>2) / 6"
    and "b0 + b1 + b2 \<noteq> 0"
  shows "evolve_body (uniform_state n t a0 a1 a2 r v) =
         Inr (uniform_state n t b0 b1 b2 (b0 + b1 + b2) ((b1 - b2) / (b0 + b1 + b2)))"
proof -
  let ?s = "uniform_state n t a0 a1 a2 r v"
  have e0: "f_eq_at (Fin (1 / 3)) (Fin 0) (Fin r) (Fin v) (Fin 0) = Fin b0"
    and e1: "f_eq_at (Fin (1 / 6)) (Fin 1) (Fin r) (Fin v) (Fin 0) = Fin b1"
    and e2: "f_eq_at (Fin (1 / 6)) (Fin (- 1)) (Fin r) (Fin v) (Fin 0) = Fin b2"
    unfolding assms(1-3) by (simp_all add: f_eq_at_def fsq_def fsub_def power2_eq_square field_simps)
  have col: "collision ?s = Inr (?s\<lparr>f := [replicate n (Fin b0), replicate n (Fin b1), replicate n (Fin b2)]\<rparr>)"
    unfolding collision_shape_ok [OF shape_ok_uniform_state] f_eq_vals_uniform_state
    by (simp add: e0 e1 e2) (simp add: uniform_state_def new_solver_def init_def relax_row_def fsub_def)
  let ?s1 = "?s\<lparr>f := [replicate n (Fin b0), replicate n (Fin b1), replicate n (Fin b2)]\<rparr>"
  have nx1: "nx ?s1 = n" by (simp add: uniform_state_def new_solver_def init_def)
  have str: "streaming ?s1 = ?s1"
    by (simp add: streaming_def Let_def foldl_stream_right_step foldl_stream_left_step nx1
        foldl_shift_right_replicate foldl_shift_left_replicate)
  have upd: "update_density_velocity ?s1 =
      uniform_state n t b0 b1 b2 (b0 + b1 + b2) ((b1 - b2) / (b0 + b1 + b2))"
    using assms(4)
    by (simp add: update_density_velocity_def Let_def np_sum_axis0_3 uniform_state_def
        new_solver_def init_def fsub_def)
  show ?thesis
    by (simp add: evolve_body_def col str upd)
qed

lemma scenario_step1: "evolve_body (uniform_state n t a0 a1 a2 1 0) =
    Inr (uniform_state n t (1 / 3) (17 / 12) (5 / 12) (13 / 6) (6 / 13))"
  using evolve_body_uniform_state [of "1 / 3" 1 0 "17 / 12" "5 / 12" n t a0 a1 a2] by simp

lemma scenario_step2: "evolve_body (uniform_state n t a0 a1 a2 (13 / 6) (6 / 13)) =
    Inr (uniform_state n t (511 / 234) (4961 / 936) (125 / 936) (3565 / 468) (78 / 115))"
  using evolve_body_uniform_state [of "511 / 234" "13 / 6" "6 / 13" "4961 / 936" "125 / 936" n t a0 a1 a2]
  by (simp add: power2_eq_square)

lemma scenario_step3: "evolve_body (uniform_state n t a0 a1 a2 (3565 / 468) (78 / 115)) =
    Inr (uniform_state n t (1809997 / 161460) (14774879 / 645840) (- 155341 / 645840)
          (840751 / 24840) (240810 / 352573))"
  using evolve_body_uniform_state [of "1809997 / 161460" "3565 / 468" "78 / 115"
      "14774879 / 645840" "- 155341 / 645840" n t a0 a1 a2]
  by (simp add: power2_eq_square)

lemma scenario_step4: "evolve_body (uniform_state n t a0 a1 a2 (840751 / 24840) (240810 / 352573)) =
    Inr (uniform_state n t (17142547431589 / 341558619480) (139464116920703 / 1366234477920)
          (- 306043850153 / 273246895584)
          (103252043698147 / 683117238960) (2274102196314 / 3330711087037))"
  using evolve_body_uniform_state [of "17142547431589 / 341558619480" "840751 / 24840" "240810 / 352573"
      "139464116920703 / 1366234477920" "- 306043850153 / 273246895584" n t a0 a1 a2]
  by (simp add: power2_eq_square)

lemma scenario_step5: "evolve_body (uniform_state n t a0 a1 a2 (103252043698147 / 683117238960) (2274102196314 / 3330711087037)) =
    Inr (uniform_state n t (1529273119081297355881064341 / 6825798484650527062084560)
          (12443589726993873529787978111 / 27303193938602108248338240)
          (- 27249633997007549711310569 / 5460638787720421649667648)
          (474001390103782485329449 / 702423306884540989152)
          (202900611241595343199105338 / 297168290860226212979930365))"
  using evolve_body_uniform_state [of "1529273119081297355881064341 / 6825798484650527062084560"
      "103252043698147 / 683117238960" "2274102196314 / 3330711087037"
      "12443589726993873529787978111 / 27303193938602108248338240"
      "- 27249633997007549711310569 / 5460638787720421649667648" n t a0 a1 a2]
  by (simp add: power2_eq_square)

lemma nt_uniform_state: "nt (uniform_state n t a0 a1 a2 r v) = t"
  by (simp add: uniform_state_def new_solver_def init_def)

text \<open>
  C2. The scenario \<open>nx=10, nt=5, omega=1.0\<close> from the constructor's initial state. The
  claim expects \<open>rho\<close> close to 1 at interior sites and \<open>u\<close> close to 0 everywhere. The
  code ends with \<open>rho\<close> above 674 and \<open>u\<close> above 1/2 at every site: the three
  equilibrium values sum to \<open>rho * (13 + 12 u + 12 u\<^sup>2) / 6\<close>, not to \<open>rho\<close>, so each
  iteration multiplies the density by at least 5/3.
\<close>

theorem end_to_end_scenario_grows:
  "\<exists>s'. evolve (new_solver 10 5 (Fin 1)) = Inr s' \<and>
     rho s' = replicate 10 (Fin (474001390103782485329449 / 702423306884540989152)) \<and>
     u s' = replicate 10 (Fin (202900611241595343199105338 / 297168290860226212979930365)) \<and>
     (674 :: real) < 474001390103782485329449 / 702423306884540989152 \<and>
     (1 / 2 :: real) < 202900611241595343199105338 / 297168290860226212979930365"
proof -
  have "evolve (new_solver 10 5 (Fin 1)) =
      evolve_loop (Suc (Suc (Suc (Suc (Suc 0))))) (uniform_state 10 5 0 0 0 1 0)"
  proof -
    have "nat (5 :: int) = Suc (Suc (Suc (Suc (Suc 0))))" by simp
    then show ?thesis
      by (simp only: evolve_def new_solver_uniform nt_uniform_state)
  qed
  also have "\<dots> = Inr (uniform_state 10 5 (1529273119081297355881064341 / 6825798484650527062084560)
          (12443589726993873529787978111 / 27303193938602108248338240)
          (- 27249633997007549711310569 / 5460638787720421649667648)
          (474001390103782485329449 / 702423306884540989152)
          (202900611241595343199105338 / 297168290860226212979930365))"
    by (simp only: evolve_loop.simps scenario_step1 scenario_step2 scenario_step3 scenario_step4 scenario_step5 sum.case)
  finally show ?thesis
    by (simp add: uniform_state_def)
qed

section \<open>The macroscopic fields\<close>

lemma shape_ok_collision:
  assumes "shape_ok s" and "collision s = Inr s'"
  shows "shape_ok s'"
  using assms unfolding collision_shape_ok [OF assms(1)]
  by (auto simp: shape_ok_def)

lemma update_fields:
  "f (update_density_velocity s) = f s" "nx (update_density_velocity s) = nx s"
  "nt (update_density_velocity s) = nt s" "omega (update_density_velocity s) = omega s"
  "epsilon (update_density_velocity s) = epsilon s" "c (update_density_velocity s) = c s"
  "w (update_density_velocity s) = w s"
  by (simp_all add: update_density_velocity_def Let_def)

lemma update_shape_ok_vals:
  assumes "shape_ok s"
  shows "rho (update_density_velocity s) = map2 fadd (map2 fadd (f s ! 0) (f s ! 1)) (f s ! 2)"
    and "u (update_density_velocity s) =
         map2 fdiv (map2 fsub (f s ! 1) (f s ! 2)) (map2 fadd (map2 fadd (f s ! 0) (f s ! 1)) (f s ! 2))"
proof -
  from assms have "length (f s) = 3" by (simp add: shape_ok_def)
  from list3 [OF this] have "np_sum_axis0 (f s) = map2 fadd (map2 fadd (f s ! 0) (f s ! 1)) (f s ! 2)"
    by (metis np_sum_axis0_3)
  then show "rho (update_density_velocity s) = map2 fadd (map2 fadd (f s ! 0) (f s ! 1)) (f s ! 2)"
    and "u (update_density_velocity s) =
         map2 fdiv (map2 fsub (f s ! 1) (f s ! 2)) (map2 fadd (map2 fadd (f s ! 0) (f s ! 1)) (f s ! 2))"
    by (simp_all add: update_density_velocity_def Let_def)
qed

lemma shape_ok_update:
  assumes "shape_ok s"
  shows "shape_ok (update_density_velocity s)"
proof -
  from assms have "length (f s ! 0) = nx s" "length (f s ! 1) = nx s" "length (f s ! 2) = nx s"
    by (simp_all add: shape_ok_def)
  with assms show ?thesis
    by (simp add: shape_ok_def update_fields update_shape_ok_vals [OF assms])
qed

lemma update_nth:
  assumes "shape_ok s" and "i < nx s"
  shows "rho (update_density_velocity s) ! i = fadd (fadd (f s ! 0 ! i) (f s ! 1 ! i)) (f s ! 2 ! i)"
    and "u (update_density_velocity s) ! i =
         fdiv (fsub (f s ! 1 ! i) (f s ! 2 ! i)) (rho (update_density_velocity s) ! i)"
proof -
  from assms have "length (f s ! 0) = nx s" "length (f s ! 1) = nx s" "length (f s ! 2) = nx s"
    by (simp_all add: shape_ok_def)
  with assms(2) show
    "rho (update_density_velocity s) ! i = fadd (fadd (f s ! 0 ! i) (f s ! 1 ! i)) (f s ! 2 ! i)"
    and "u (update_density_velocity s) ! i =
         fdiv (fsub (f s ! 1 ! i) (f s ! 2 ! i)) (rho (update_density_velocity s) ! i)"
    by (simp_all add: update_shape_ok_vals [OF assms(1)])
qed

lemma macroscopic_consistent_update:
  "shape_ok s \<Longrightarrow> macroscopic_consistent (update_density_velocity s)"
  by (simp add: macroscopic_consistent_def update_fields update_nth)

lemma evolve_body_shape_ok:
  assumes "shape_ok s"
  shows "\<exists>s1. collision s = Inr s1 \<and> shape_ok s1 \<and>
           evolve_body s = Inr (update_density_velocity (streaming s1)) \<and>
           shape_ok (update_density_velocity (streaming s1))"
proof -
  obtain s1 where s1: "collision s = Inr s1"
    using collision_shape_ok [OF assms] by blast
  then have "shape_ok s1" using assms shape_ok_collision by blast
  then show ?thesis
    using s1 by (simp add: evolve_body_def shape_ok_streaming shape_ok_update)
qed

lemma evolve_loop_shape_ok:
  "shape_ok s \<Longrightarrow> \<exists>s'. evolve_loop n s = Inr s' \<and> shape_ok s' \<and>
      (0 < n \<longrightarrow> macroscopic_consistent s')"
proof (induction n arbitrary: s)
  case 0
  then show ?case by simp
next
  case (Suc n)
  from evolve_body_shape_ok [OF Suc.prems] obtain s1 where
    s1: "shape_ok s1" "evolve_body s = Inr (update_density_velocity (streaming s1))"
      "shape_ok (update_density_velocity (streaming s1))"
    by blast
  let ?t = "update_density_velocity (streaming s1)"
  have mc: "macroscopic_consistent ?t"
    using s1(1) by (simp add: macroscopic_consistent_update shape_ok_streaming)
  from Suc.IH [OF s1(3)] obtain s' where
    s': "evolve_loop n ?t = Inr s'" "shape_ok s'" "0 < n \<longrightarrow> macroscopic_consistent s'"
    by blast
  have "macroscopic_consistent s'"
  proof (cases n)
    case 0
    with s'(1) mc show ?thesis by simp
  next
    case (Suc m)
    with s'(3) show ?thesis by simp
  qed
  with s' s1(2) show ?case by simp
qed

text \<open>
  C5, amended. The relations \<open>rho[i] = f[0,i] + f[1,i] + f[2,i]\<close> and
  \<open>u[i] = (f[1,i] - f[2,i]) / rho[i]\<close> hold at every site in the state that
  \<open>update_density_velocity\<close> returns, and so in the state that \<open>evolve\<close> returns when
  \<open>nt\<close> is positive.
\<close>

theorem macroscopic_fields_after_update:
  assumes "shape_ok s"
  shows "macroscopic_consistent (update_density_velocity s) \<and>
         (0 < nt s \<longrightarrow> (\<exists>s'. evolve s = Inr s' \<and> macroscopic_consistent s'))"
proof -
  have "\<exists>s'. evolve s = Inr s' \<and> macroscopic_consistent s'" if "0 < nt s"
    using evolve_loop_shape_ok [OF assms, of "nat (nt s)"] that
    by (auto simp: evolve_def)
  with assms show ?thesis
    by (simp add: macroscopic_consistent_update)
qed

lemma shape_ok_new_solver: "shape_ok (new_solver n t om)"
  by (simp add: shape_ok_def new_solver_def init_def)

text \<open>
  C5, as stated, fails: in the freshly constructed state \<open>rho\<close> is 1 at every site while
  the three distribution functions sum to 0.
\<close>

theorem fresh_state_not_consistent:
  "\<not> macroscopic_consistent (new_solver 1 1 (Fin 1)) \<and>
   rho (new_solver 1 1 (Fin 1)) ! 0 = Fin 1 \<and>
   fadd (fadd (f (new_solver 1 1 (Fin 1)) ! 0 ! 0) (f (new_solver 1 1 (Fin 1)) ! 1 ! 0))
     (f (new_solver 1 1 (Fin 1)) ! 2 ! 0) = Fin 0"
  by (simp add: macroscopic_consistent_def new_solver_def init_def numeral_3_eq_3)

theorem macroscopic_fields_after_update_witness:
  "shape_ok (new_solver 2 1 (Fin 1)) \<and> 0 < nt (new_solver 2 1 (Fin 1)) \<and>
   macroscopic_consistent (update_density_velocity (new_solver 2 1 (Fin 1))) \<and>
   (\<exists>s'. evolve (new_solver 2 1 (Fin 1)) = Inr s' \<and> macroscopic_consistent s')"
proof -
  have "0 < nt (new_solver 2 1 (Fin 1))"
    by (simp add: new_solver_def init_def)
  with macroscopic_fields_after_update [OF shape_ok_new_solver, of 2 1 "Fin 1"] shape_ok_new_solver
  show ?thesis by blast
qed

section \<open>Collision: relaxation towards the equilibrium\<close>

lemma fmul_zero_finite: "is_finite x \<Longrightarrow> fmul (Fin 0) x = Fin 0"
  by (cases x) simp_all

lemma fmul_one: "fmul (Fin 1) x = x"
  by (cases x) simp_all

lemma fadd_zero_left: "fadd (Fin 0) x = x"
  by (cases x) simp_all

lemma fadd_zero_right: "fadd x (Fin 0) = x"
  by (cases x) simp_all

lemma collision_nth:
  assumes "shape_ok s" and "collision s = Inr s'" and "d < 3" and "i < nx s"
  shows "f s' ! d ! i =
         fadd (fmul (fsub (Fin 1) (omega s)) (f s ! d ! i)) (fmul (omega s) (f_eq_vals s d ! i))"
proof -
  from assms(1) have len: "length (f s ! 0) = nx s" "length (f s ! 1) = nx s" "length (f s ! 2) = nx s"
    by (simp_all add: shape_ok_def)
  from assms(3) consider "d = 0" | "d = 1" | "d = 2" by linarith
  then show ?thesis
    using assms(2,4) len unfolding collision_shape_ok [OF assms(1)]
    by cases (auto simp: nth_relax_row)
qed

lemma collision_frame:
  assumes "shape_ok s" and "collision s = Inr s'"
  shows "s' = s\<lparr>f := f s'\<rparr>"
  using assms(2) unfolding collision_shape_ok [OF assms(1)] by auto

text \<open>
  C6, amended. On every state of the right shape and for every \<open>omega\<close>, \<open>collision\<close>
  raises no error, changes no field but \<open>f\<close>, and sets \<open>f[d,i]\<close> to
  \<open>(1-omega)*f[d,i] + omega*f_eq[d,i]\<close> with \<open>f_eq\<close> the matrix that
  \<open>equilibrium_distribution\<close> returns on that state. With \<open>omega = 1\<close> the new \<open>f[d,i]\<close>
  is \<open>f_eq[d,i]\<close> wherever the old \<open>f[d,i]\<close> is finite; with \<open>omega = 0\<close> the new
  \<open>f[d,i]\<close> is the old one wherever \<open>f_eq[d,i]\<close> is finite.
\<close>

theorem collision_relaxes:
  assumes "shape_ok s"
  shows "\<exists>s' f_eq. equilibrium_distribution s = Inr f_eq \<and> collision s = Inr s' \<and>
           shape_ok s' \<and> s' = s\<lparr>f := f s'\<rparr> \<and>
           (\<forall>d<3. \<forall>i<nx s.
              f s' ! d ! i =
                fadd (fmul (fsub (Fin 1) (omega s)) (f s ! d ! i)) (fmul (omega s) (f_eq ! d ! i)) \<and>
              (omega s = Fin 1 \<and> is_finite (f s ! d ! i) \<longrightarrow> f s' ! d ! i = f_eq ! d ! i) \<and>
              (omega s = Fin 0 \<and> is_finite (f_eq ! d ! i) \<longrightarrow> f s' ! d ! i = f s ! d ! i))"
proof -
  let ?fe = "[f_eq_vals s 0, f_eq_vals s 1, f_eq_vals s 2]"
  obtain s' where s': "collision s = Inr s'"
    using collision_shape_ok [OF assms] by blast
  have eq: "equilibrium_distribution s = Inr ?fe"
    by (rule equilibrium_distribution_shape_ok [OF assms])
  have fe: "?fe ! d = f_eq_vals s d" if "d < 3" for d
  proof -
    from that consider "d = 0" | "d = 1" | "d = 2" by linarith
    then show ?thesis by cases simp_all
  qed
  have pt: "f s' ! d ! i =
      fadd (fmul (fsub (Fin 1) (omega s)) (f s ! d ! i)) (fmul (omega s) (?fe ! d ! i))"
    if "d < 3" "i < nx s" for d i
    using collision_nth [OF assms s' that] fe [OF that(1)] by simp
  have full: "f s' ! d ! i = ?fe ! d ! i"
    if "d < 3" "i < nx s" "omega s = Fin 1" "is_finite (f s ! d ! i)" for d i
    using pt [OF that(1,2)] that(3,4)
    by (simp add: fsub_def fmul_zero_finite fmul_one fadd_zero_left)
  have none: "f s' ! d ! i = f s ! d ! i"
    if "d < 3" "i < nx s" "omega s = Fin 0" "is_finite (?fe ! d ! i)" for d i
    using pt [OF that(1,2)] that(3,4)
    by (simp add: fsub_def fmul_zero_finite fmul_one fadd_zero_right)
  from eq s' shape_ok_collision [OF assms s'] collision_frame [OF assms s'] pt full none
  show ?thesis by blast
qed

lemma shape_ok_nan_state: "shape_ok nan_state"
  by (simp add: shape_ok_def nan_state_def new_solver_def init_def)

lemma f_eq_vals_nan_state: "d < 3 \<Longrightarrow> f_eq_vals nan_state d = [NaN]"
  by (auto simp: f_eq_vals_def nan_state_def new_solver_def init_def f_eq_at_def fsq_def fsub_def
      less_Suc_eq numeral_3_eq_3)

text \<open>
  C6, as stated, fails: \<open>0 * nan\<close> is \<open>nan\<close>. After one iteration from the constructor's
  state with \<open>omega = 0\<close> the velocity is NaN, the equilibrium values are NaN, and
  \<open>collision\<close> with \<open>omega = 0\<close> turns the zero matrix \<open>f\<close> into NaN.
\<close>

theorem collision_without_relaxation_changes_f:
  "evolve (new_solver 1 1 (Fin 0)) = Inr nan_state \<and>
   omega nan_state = Fin 0 \<and>
   f nan_state = [[Fin 0], [Fin 0], [Fin 0]] \<and>
   collision nan_state = Inr (nan_state\<lparr>f := [[NaN], [NaN], [NaN]]\<rparr>)"
proof -
  let ?s0 = "new_solver 1 1 (Fin 0)"
  have fields: "omega nan_state = Fin 0" "f nan_state = [[Fin 0], [Fin 0], [Fin 0]]"
    by (simp_all add: nan_state_def new_solver_def init_def numeral_3_eq_3)
  have col0: "collision ?s0 = Inr ?s0"
    unfolding collision_shape_ok [OF shape_ok_new_solver]
    by (simp add: new_solver_def init_def numeral_3_eq_3 relax_row_def f_eq_vals_def f_eq_at_def
        fsq_def fsub_def)
  have str0: "streaming ?s0 = ?s0"
    by (simp add: streaming_def Let_def new_solver_def init_def)
  have upd0: "update_density_velocity ?s0 = nan_state"
    by (simp add: update_density_velocity_def Let_def np_sum_axis0_def nan_state_def new_solver_def
        init_def numeral_3_eq_3 fsub_def)
  have "nt ?s0 = 1"
    by (simp add: new_solver_def init_def)
  then have ev: "evolve ?s0 = Inr nan_state"
    by (simp add: evolve_def evolve_body_def col0 str0 upd0 del: One_nat_def)
  have col: "collision nan_state = Inr (nan_state\<lparr>f := [[NaN], [NaN], [NaN]]\<rparr>)"
    unfolding collision_shape_ok [OF shape_ok_nan_state]
    by (simp add: f_eq_vals_nan_state) (simp add: fields relax_row_def fsub_def)
  from ev fields col show ?thesis by simp
qed

theorem collision_relaxes_witness:
  "shape_ok (new_solver 1 1 (Fin 1)) \<and> shape_ok (new_solver 1 1 (Fin 0)) \<and>
   (\<exists>s'. collision (new_solver 1 1 (Fin 1)) = Inr s' \<and> f s' ! 1 ! 0 = Fin (17 / 12)) \<and>
   (\<exists>s'. collision (new_solver 1 1 (Fin 0)) = Inr s' \<and> f s' ! 1 ! 0 = Fin 0)"
proof -
  let ?a = "new_solver 1 1 (Fin 1)" and ?b = "new_solver 1 1 (Fin 0)"
  have fa: "nx ?a = 1" "omega ?a = Fin 1" "f ?a ! 1 ! 0 = Fin 0"
    and fb: "nx ?b = 1" "omega ?b = Fin 0" "f ?b ! 1 ! 0 = Fin 0"
    by (simp_all add: new_solver_def init_def numeral_3_eq_3)
  have ea: "equilibrium_distribution ?a = Inr [[Fin (1 / 3)], [Fin (17 / 12)], [Fin (5 / 12)]]"
    and eb: "equilibrium_distribution ?b = Inr [[Fin (1 / 3)], [Fin (17 / 12)], [Fin (5 / 12)]]"
    unfolding equilibrium_distribution_shape_ok [OF shape_ok_new_solver]
    by (simp_all add: f_eq_vals_def f_eq_at_def fsq_def fsub_def new_solver_def init_def)
  from collision_relaxes [OF shape_ok_new_solver, of 1 1 "Fin 1"] obtain sa fe where
    a: "equilibrium_distribution ?a = Inr fe" "collision ?a = Inr sa"
      "\<forall>d<3. \<forall>i<nx ?a. (omega ?a = Fin 1 \<and> is_finite (f ?a ! d ! i) \<longrightarrow> f sa ! d ! i = fe ! d ! i)"
    by blast
  from a(1) ea have "fe = [[Fin (1 / 3)], [Fin (17 / 12)], [Fin (5 / 12)]]" by simp
  with a(3) fa have "f sa ! 1 ! 0 = Fin (17 / 12)" by simp
  with a(2) have A: "\<exists>s'. collision ?a = Inr s' \<and> f s' ! 1 ! 0 = Fin (17 / 12)" by blast
  from collision_relaxes [OF shape_ok_new_solver, of 1 1 "Fin 0"] obtain sb fe' where
    b: "equilibrium_distribution ?b = Inr fe'" "collision ?b = Inr sb"
      "\<forall>d<3. \<forall>i<nx ?b. (omega ?b = Fin 0 \<and> is_finite (fe' ! d ! i) \<longrightarrow> f sb ! d ! i = f ?b ! d ! i)"
    by blast
  from b(1) eb have "fe' = [[Fin (1 / 3)], [Fin (17 / 12)], [Fin (5 / 12)]]" by simp
  with b(3) fb have "f sb ! 1 ! 0 = Fin 0" by simp
  with b(2) have B: "\<exists>s'. collision ?b = Inr s' \<and> f s' ! 1 ! 0 = Fin 0" by blast
  from A B shape_ok_new_solver show ?thesis by blast
qed

section \<open>The sum of the equilibrium values\<close>








section \<open>The equilibrium distribution reads three fields\<close>

lemma f_eq_row_cong:
  "f_eq_row (s\<lparr>f := m, omega := om, nt := t, dx := a, dt := b\<rparr>) i = f_eq_row s i"
  by (simp add: f_eq_row_def u_eq_row_def)

lemma equilibrium_loop_cong:
  "equilibrium_loop (s\<lparr>f := m, omega := om, nt := t, dx := a, dt := b\<rparr>) ixs acc =
   equilibrium_loop s ixs acc"
  by (induction ixs arbitrary: acc) (simp_all add: f_eq_row_cong split: sum.splits)

text \<open>
  C8. \<open>equilibrium_distribution\<close> assigns to no field of the solver: the model of the
  method returns the matrix alone, and \<open>collision\<close> goes on with the state it started
  from. Its result is determined by \<open>rho\<close>, \<open>u\<close> and \<open>epsilon\<close> (and the constants \<open>nx\<close>,
  \<open>c\<close>, \<open>w\<close>): whatever is written to the other fields between two calls, both calls
  return the same matrix.
\<close>

theorem equilibrium_distribution_pure:
  "equilibrium_distribution (s\<lparr>f := m, omega := om, nt := t, dx := a, dt := b\<rparr>) =
   equilibrium_distribution s"
  by (simp only: equilibrium_distribution_def equilibrium_loop_cong) simp

section \<open>Division by a zero density\<close>

lemma fmul_NaN_right: "fmul x NaN = NaN"
  by (cases x) simp_all

lemma fadd_NaN_right: "fadd x NaN = NaN"
  by (cases x) simp_all

lemma fdiv_NaN_right: "fdiv x NaN = NaN"
  by (cases x) simp_all

lemma fdiv_zero_not_finite: "\<not> is_finite (fdiv x (Fin 0))"
  by (cases x) simp_all

lemma f_eq_at_rho_NaN: "f_eq_at wd cd NaN v e = NaN"
  by (simp add: f_eq_at_def fmul_NaN_right)

lemma f_eq_at_zero_density:
  assumes "\<not> is_finite v" and "cd \<in> {Fin 0, Fin 1, Fin (- 1)}"
  shows "f_eq_at wd cd (Fin 0) v e = NaN"
proof -
  have "fsub (fadd (fadd (Fin 1) (fmul (Fin 3) (fadd v cd))) (fmul (Fin (9 / 2)) (fsq (fadd v cd))))
          (fmul (Fin (3 / 2)) (fsq v)) = NaN"
    using assms by (cases v) (auto simp: fsq_def fsub_def)
  then show ?thesis
    by (simp add: f_eq_at_def fmul_NaN_right)
qed

lemma evolve_body_fields:
  assumes "shape_ok s" and "evolve_body s = Inr s'"
  shows "nx s' = nx s" "c s' = c s" "w s' = w s" "nt s' = nt s"
proof -
  from evolve_body_shape_ok [OF assms(1)] obtain s1 where
    s1: "collision s = Inr s1" "evolve_body s = Inr (update_density_velocity (streaming s1))"
    by blast
  from collision_frame [OF assms(1) s1(1)] have "s1 = s\<lparr>f := f s1\<rparr>" .
  then have "nx s1 = nx s" "c s1 = c s" "w s1 = w s" "nt s1 = nt s"
    by (metis solver.select_convs solver.surjective solver.update_convs(6))+
  with s1(2) assms(2) show "nx s' = nx s" "c s' = c s" "w s' = w s" "nt s' = nt s"
    by (auto simp: update_fields streaming_other_fields)
qed

lemma evolve_body_poisons:
  assumes "shape_ok s" and "i < nx s" and "\<forall>d<3. f_eq_vals s d ! i = NaN"
  shows "\<exists>s'. evolve_body s = Inr s' \<and> shape_ok s' \<and> nx s' = nx s \<and> c s' = c s \<and>
           w s' = w s \<and> rho s' ! i = NaN \<and> u s' ! i = NaN"
proof -
  from evolve_body_shape_ok [OF assms(1)] obtain s1 where
    s1: "collision s = Inr s1" "shape_ok s1"
      "evolve_body s = Inr (update_density_velocity (streaming s1))"
      "shape_ok (update_density_velocity (streaming s1))"
    by blast
  let ?s2 = "streaming s1" and ?s' = "update_density_velocity (streaming s1)"
  have nx1: "nx s1 = nx s"
    using collision_frame [OF assms(1) s1(1)]
    by (metis solver.select_convs(1) solver.surjective solver.update_convs(6))
  have "f s1 ! 0 ! i = NaN"
    using collision_nth [OF assms(1) s1(1), of 0 i] assms(2,3)
    by (simp add: fmul_NaN_right fadd_NaN_right)
  moreover have "f ?s2 ! 0 = f s1 ! 0"
    using s1(2) by (simp add: f_streaming shape_ok_def)
  ultimately have f0: "f ?s2 ! 0 ! i = NaN" by simp
  have i2: "i < nx ?s2" using assms(2) nx1 by (simp add: streaming_other_fields)
  have ok2: "shape_ok ?s2" using s1(2) by (rule shape_ok_streaming)
  have r: "rho ?s' ! i = NaN"
    using update_nth(1) [OF ok2 i2] f0 by simp
  have v: "u ?s' ! i = NaN"
    using update_nth(2) [OF ok2 i2] r by (simp add: fdiv_NaN_right)
  from evolve_body_fields [OF assms(1) s1(3)] s1(3,4) r v show ?thesis by simp
qed

lemma evolve_loop_stays_poisoned:
  "shape_ok s \<Longrightarrow> i < nx s \<Longrightarrow> rho s ! i = NaN \<Longrightarrow> u s ! i = NaN \<Longrightarrow>
   \<exists>s'. evolve_loop n s = Inr s' \<and> rho s' ! i = NaN \<and> u s' ! i = NaN"
proof (induction n arbitrary: s)
  case 0
  then show ?case by simp
next
  case (Suc n)
  have "\<forall>d<3. f_eq_vals s d ! i = NaN"
    using Suc.prems(2,3) by (simp add: nth_f_eq_vals f_eq_at_rho_NaN)
  from evolve_body_poisons [OF Suc.prems(1,2) this] obtain s1 where
    s1: "evolve_body s = Inr s1" "shape_ok s1" "nx s1 = nx s" "rho s1 ! i = NaN" "u s1 ! i = NaN"
    by blast
  from Suc.IH [OF s1(2) _ s1(4,5)] s1(3) Suc.prems(2) obtain s' where
    "evolve_loop n s1 = Inr s'" "rho s' ! i = NaN" "u s' ! i = NaN"
    by auto
  with s1(1) show ?case by simp
qed

text \<open>
  C9. \<open>update_density_velocity\<close> divides by the new \<open>rho\<close> without a guard and has no
  error result. At a site where the three distribution functions sum to zero it stores
  the density 0 and the quotient \<open>(f[1,i] - f[2,i]) / 0\<close>, which is an infinity or NaN.
  Every later iteration of \<open>evolve\<close> runs without an error and leaves NaN in \<open>rho\<close> and
  \<open>u\<close> at that site.
\<close>

theorem zero_density_is_not_guarded:
  assumes "shape_ok s" and "d1q3 s" and "i < nx s"
    and "fadd (fadd (f s ! 0 ! i) (f s ! 1 ! i)) (f s ! 2 ! i) = Fin 0"
  shows "rho (update_density_velocity s) ! i = Fin 0 \<and>
         u (update_density_velocity s) ! i =
           fdiv (fsub (f s ! 1 ! i) (f s ! 2 ! i)) (Fin 0) \<and>
         \<not> is_finite (u (update_density_velocity s) ! i) \<and>
         (\<forall>n. \<exists>s'. evolve_loop (Suc n) (update_density_velocity s) = Inr s' \<and>
                 rho s' ! i = NaN \<and> u s' ! i = NaN)"
proof -
  let ?t = "update_density_velocity s"
  have r: "rho ?t ! i = Fin 0"
    using update_nth(1) [OF assms(1,3)] assms(4) by simp
  have v: "u ?t ! i = fdiv (fsub (f s ! 1 ! i) (f s ! 2 ! i)) (Fin 0)"
    using update_nth(2) [OF assms(1,3)] r by simp
  have nf: "\<not> is_finite (u ?t ! i)"
    unfolding v by (rule fdiv_zero_not_finite)
  have ok: "shape_ok ?t" using assms(1) by (rule shape_ok_update)
  have it: "i < nx ?t" using assms(3) by (simp add: update_fields)
  have cw: "c ?t = [Fin 0, Fin 1, Fin (- 1)]"
    using assms(2) by (simp add: d1q3_def update_fields)
  have "c ?t ! d \<in> {Fin 0, Fin 1, Fin (- 1)}" if "d < 3" for d
  proof -
    from that consider "d = 0" | "d = 1" | "d = 2" by linarith
    then show ?thesis by cases (simp_all add: cw)
  qed
  then have "\<forall>d<3. f_eq_vals ?t d ! i = NaN"
    using it r nf by (simp add: nth_f_eq_vals f_eq_at_zero_density)
  from evolve_body_poisons [OF ok it this] obtain s1 where
    s1: "evolve_body ?t = Inr s1" "shape_ok s1" "nx s1 = nx ?t" "rho s1 ! i = NaN" "u s1 ! i = NaN"
    by blast
  have "\<exists>s'. evolve_loop (Suc n) ?t = Inr s' \<and> rho s' ! i = NaN \<and> u s' ! i = NaN" for n
    using evolve_loop_stays_poisoned [OF s1(2) _ s1(4,5), of n] s1(1,3) it by simp
  with r v nf show ?thesis by blast
qed

theorem zero_density_is_not_guarded_witness:
  "shape_ok (new_solver 1 2 (Fin 0)) \<and> d1q3 (new_solver 1 2 (Fin 0)) \<and>
   rho (update_density_velocity (new_solver 1 2 (Fin 0))) ! 0 = Fin 0 \<and>
   u (update_density_velocity (new_solver 1 2 (Fin 0))) ! 0 = NaN \<and>
   (\<exists>s'. evolve_loop (Suc 0) (update_density_velocity (new_solver 1 2 (Fin 0))) = Inr s' \<and>
      rho s' ! 0 = NaN \<and> u s' ! 0 = NaN)"
proof -
  let ?a = "new_solver 1 2 (Fin 0)"
  have d: "d1q3 ?a" by (simp add: d1q3_def new_solver_def init_def)
  have h: "0 < nx ?a" "fadd (fadd (f ?a ! 0 ! 0) (f ?a ! 1 ! 0)) (f ?a ! 2 ! 0) = Fin 0"
    and z: "fdiv (fsub (f ?a ! 1 ! 0) (f ?a ! 2 ! 0)) (Fin 0) = NaN"
    by (simp_all add: new_solver_def init_def numeral_3_eq_3 fsub_def)
  from zero_density_is_not_guarded [OF shape_ok_new_solver d h] z shape_ok_new_solver d
  show ?thesis by simp
qed

section \<open>The evolution loop\<close>

lemma evolve_loop_funpow:
  "shape_ok s \<Longrightarrow>
   evolve_loop n s =
     Inr (((\<lambda>x. update_density_velocity (streaming (projr (collision x)))) ^^ n) s)"
proof (induction n arbitrary: s)
  case 0
  then show ?case by simp
next
  case (Suc n)
  from evolve_body_shape_ok [OF Suc.prems] obtain s1 where
    s1: "collision s = Inr s1" "evolve_body s = Inr (update_density_velocity (streaming s1))"
      "shape_ok (update_density_velocity (streaming s1))"
    by blast
  let ?g = "\<lambda>x. update_density_velocity (streaming (projr (collision x)))"
  have "(?g ^^ Suc n) s = (?g ^^ n) (?g s)"
    by (simp only: funpow_Suc_right o_apply)
  also have "?g s = update_density_velocity (streaming s1)"
    by (simp add: s1(1))
  finally have "(?g ^^ Suc n) s = (?g ^^ n) (update_density_velocity (streaming s1))" .
  with Suc.IH [OF s1(3)] s1(2) show ?case
    by (simp del: funpow.simps)
qed

text \<open>
  C10. \<open>evolve\<close> with \<open>nt = 0\<close> returns the state it was given. On a state of the right
  shape, \<open>evolve\<close> returns the state obtained by applying \<open>collision\<close>, then \<open>streaming\<close>,
  then \<open>update_density_velocity\<close>, exactly \<open>nt\<close> times (no times for a negative \<open>nt\<close>).
\<close>

theorem evolve_runs_nt_iterations:
  "(nt s = 0 \<longrightarrow> evolve s = Inr s) \<and>
   (shape_ok s \<longrightarrow>
      evolve s =
        Inr (((\<lambda>x. update_density_velocity (streaming (projr (collision x)))) ^^ nat (nt s)) s))"
  by (simp add: evolve_def evolve_loop_funpow)

theorem evolve_runs_nt_iterations_witness:
  "nt (new_solver 2 0 (Fin 1)) = 0 \<and> evolve (new_solver 2 0 (Fin 1)) = Inr (new_solver 2 0 (Fin 1)) \<and>
   shape_ok (new_solver 2 2 (Fin 1)) \<and>
   evolve (new_solver 2 2 (Fin 1)) =
     Inr (update_density_velocity (streaming (projr (collision
       (update_density_velocity (streaming (projr (collision (new_solver 2 2 (Fin 1))))))))))"
proof -
  have n0: "nt (new_solver 2 0 (Fin 1)) = 0" and n2: "nat (nt (new_solver 2 2 (Fin 1))) = Suc (Suc 0)"
    by (simp_all add: new_solver_def init_def)
  from evolve_runs_nt_iterations [of "new_solver 2 0 (Fin 1)"] n0
  have a: "evolve (new_solver 2 0 (Fin 1)) = Inr (new_solver 2 0 (Fin 1))" by blast
  from evolve_runs_nt_iterations [of "new_solver 2 2 (Fin 1)"] shape_ok_new_solver
  have "evolve (new_solver 2 2 (Fin 1)) =
     Inr (((\<lambda>x. update_density_velocity (streaming (projr (collision x)))) ^^
        nat (nt (new_solver 2 2 (Fin 1)))) (new_solver 2 2 (Fin 1)))"
    by blast
  then have b: "evolve (new_solver 2 2 (Fin 1)) =
     Inr (update_density_velocity (streaming (projr (collision
       (update_density_velocity (streaming (projr (collision (new_solver 2 2 (Fin 1))))))))))"
    unfolding n2 by simp
  from n0 a b shape_ok_new_solver show ?thesis by blast
qed

end
